theory Spec2Isabelle
  imports Complex_Main "HOL-Library.Log_Nat"
begin

section \<open>The Job of the job queue (packages/core/src/job-queue/job.ts)\<close>

text \<open>
  A shallow embedding of the class \<^verbatim>\<open>Job\<close>. The object is a record; a method takes the record
  and returns the updated record together with the listener calls it made and, where it
  can throw, the exception. \<^verbatim>\<open>new Date()\<close> is the argument \<open>now\<close> of the method that reads the
  clock (milliseconds, a natural number); no method reads the clock twice.
\<close>

subsection \<open>Numbers\<close>

text \<open>
  A value of type \<^verbatim>\<open>number\<close> (\<^verbatim>\<open>retries\<close>, \<^verbatim>\<open>attempts\<close>, \<^verbatim>\<open>progress\<close>) is the real number that the
  double denotes; \<^verbatim>\<open>NaN\<close> and the infinities are outside the embedding. Comparisons and
  \<^verbatim>\<open>Math.min\<close> are exact on doubles. The one operation of the class that rounds is
  \<^verbatim>\<open>this._attempts++\<close>, the double nearest to the sum, a tie going to the even significand:
  \<open>to_double\<close> rounds a real to 53 significant bits (one bit is \<open>2 ^ -1074\<close> below the
  normal range).
\<close>

definition pow2 :: "int \<Rightarrow> real" where
  "pow2 k = (if 0 \<le> k then 2 ^ nat k else 1 / 2 ^ nat (- k))"

text \<open>The exponent \<open>e\<close> with \<open>2 ^ e \<le> \<bar>x\<bar> < 2 ^ (e + 1)\<close>, and \<open>-1022\<close> below the normal range.\<close>

definition binade :: "real \<Rightarrow> int" where
  "binade x =
     max (- 1022)
       (if 1 \<le> \<bar>x\<bar> then bitlen \<lfloor>\<bar>x\<bar>\<rfloor> - 1 else - bitlen (\<lceil>1 / \<bar>x\<bar>\<rceil> - 1))"

definition round_half_even :: "real \<Rightarrow> int" where
  "round_half_even x =
     (let f = \<lfloor>x\<rfloor>; d = x - of_int f
      in if d < 1 / 2 then f else if 1 / 2 < d then f + 1 else if even f then f else f + 1)"

definition to_double :: "real \<Rightarrow> real" where
  "to_double x =
     (if x = 0 then 0
      else of_int (round_half_even (x / pow2 (binade x - 52))) * pow2 (binade x - 52))"

subsection \<open>Values of type any\<close>

text \<open>
  \<^verbatim>\<open>fail(err?: any)\<close>, \<^verbatim>\<open>complete(result?: any)\<close> and the payload carry arbitrary JavaScript
  values. The embedding covers \<^verbatim>\<open>undefined\<close> (also a missing argument), \<^verbatim>\<open>null\<close>, booleans,
  strings, instances of \<^verbatim>\<open>Error\<close> with their \<^verbatim>\<open>name\<close> and \<^verbatim>\<open>message\<close>, and ordinary objects
  with string-keyed data properties, which either inherit from \<^verbatim>\<open>Object.prototype\<close> (an
  object literal) or have no prototype (\<^verbatim>\<open>Object.create(null)\<close>). Numbers, symbols, functions
  and accessor properties are outside the embedding.
\<close>

datatype jsval =
    JSUndefined
  | JSNull
  | JSBoolean bool
  | JSString string
  | JSError string string
  | JSObject bool "(string \<times> jsval) list"

text \<open>\<^verbatim>\<open>err?.message\<close>: the optional chain yields \<^verbatim>\<open>undefined\<close> on \<^verbatim>\<open>undefined\<close> and \<^verbatim>\<open>null\<close>;
  booleans and strings have no such property; an object yields its own property.\<close>

fun message_of :: "jsval \<Rightarrow> jsval" where
  "message_of JSUndefined = JSUndefined"
| "message_of JSNull = JSUndefined"
| "message_of (JSBoolean b) = JSUndefined"
| "message_of (JSString s) = JSUndefined"
| "message_of (JSError n m) = JSString m"
| "message_of (JSObject proto ps) =
     (case map_of ps ''message'' of Some v \<Rightarrow> v | None \<Rightarrow> JSUndefined)"

text \<open>The truth value of a condition (\<^verbatim>\<open>ToBoolean\<close>).\<close>

fun ToBoolean :: "jsval \<Rightarrow> bool" where
  "ToBoolean JSUndefined = False"
| "ToBoolean JSNull = False"
| "ToBoolean (JSBoolean b) = b"
| "ToBoolean (JSString s) = (s \<noteq> [])"
| "ToBoolean (JSError n m) = True"
| "ToBoolean (JSObject proto ps) = True"

text \<open>
  \<^verbatim>\<open>String(v)\<close>; \<open>Inl\<close> is the exception thrown. An \<^verbatim>\<open>Error\<close> prints through
  \<^verbatim>\<open>Error.prototype.toString\<close>. An object is converted by its \<^verbatim>\<open>toString\<close> and then its
  \<^verbatim>\<open>valueOf\<close>: no value of the embedding is callable, so the only usable method is the
  inherited \<^verbatim>\<open>Object.prototype.toString\<close>; where it is shadowed by an own property or
  there is no prototype, \<^verbatim>\<open>valueOf\<close> yields no primitive either and a \<^verbatim>\<open>TypeError\<close> is thrown.
\<close>

fun String_js :: "jsval \<Rightarrow> jsval + string" where
  "String_js JSUndefined = Inr ''undefined''"
| "String_js JSNull = Inr ''null''"
| "String_js (JSBoolean b) = Inr (if b then ''true'' else ''false'')"
| "String_js (JSString s) = Inr s"
| "String_js (JSError n m) =
     Inr (if n = [] then m else if m = [] then n else n @ '': '' @ m)"
| "String_js (JSObject proto ps) =
     (if proto \<and> ''toString'' \<notin> set (map fst ps) then Inr ''[object Object]''
      else Inl (JSError ''TypeError'' ''Cannot convert object to primitive value''))"

subsection \<open>The data model\<close>

datatype JobState = PENDING | RUNNING | COMPLETED | FAILED | RETRYING

datatype JobEventType = EvStart | EvComplete | EvFail

text \<open>
  A listener is a callback \<^verbatim>\<open>(job) => void\<close>: its handle, and what a call of it does, which is
  to return (\<open>None\<close>) or to throw a value. The model takes listeners as observers: a call
  does not call back into the job it is given.
\<close>

datatype listener = Listener (handle: nat) (raises: "jsval option")

record job =
  job_id :: "string option"
  queueName :: string
  retries :: real
  createdAt :: nat
  data :: jsval
  state :: JobState
  progress :: real
  result :: jsval
  error :: jsval
  attempts :: real
  startedAt :: "nat option"
  settledAt :: "nat option"
  eventListeners :: "JobEventType \<Rightarrow> listener list"

text \<open>One listener call: the listener and the job it was given.\<close>

type_synonym calls = "(listener \<times> job) list"

text \<open>What a call of \<^verbatim>\<open>start\<close>, \<^verbatim>\<open>complete\<close> or \<^verbatim>\<open>fail\<close> leaves behind: the job, the listener
  calls made, in order, and the exception with which the call ended, if any.\<close>

record outcome =
  job_of :: job
  calls_of :: calls
  thrown :: "jsval option"

record JobConfig =
  cfg_queueName :: string
  cfg_data :: jsval
  cfg_id :: "string option"
  cfg_state :: "JobState option"
  cfg_retries :: "real option"
  cfg_attempts :: "real option"
  cfg_progress :: "real option"
  cfg_createdAt :: "nat option"
  cfg_result :: jsval
  cfg_error :: jsval
  cfg_startedAt :: "nat option"
  cfg_settledAt :: "nat option"

subsection \<open>Constructor and getters\<close>

definition Job :: "JobConfig \<Rightarrow> nat \<Rightarrow> job" where
  "Job config now =
     \<lparr> job_id = (case cfg_id config of None \<Rightarrow> None
                 | Some i \<Rightarrow> if i = [] then None else Some i),
       queueName = cfg_queueName config,
       retries = (case cfg_retries config of None \<Rightarrow> 0 | Some r \<Rightarrow> r),
       createdAt = (case cfg_createdAt config of None \<Rightarrow> now | Some d \<Rightarrow> d),
       data = cfg_data config,
       state = (case cfg_state config of None \<Rightarrow> PENDING | Some s \<Rightarrow> s),
       progress = (case cfg_progress config of None \<Rightarrow> 0 | Some p \<Rightarrow> p),
       result = cfg_result config,
       error = cfg_error config,
       attempts = (case cfg_attempts config of None \<Rightarrow> 0 | Some a \<Rightarrow> a),
       startedAt = cfg_startedAt config,
       settledAt = cfg_settledAt config,
       eventListeners = (\<lambda>t. []) \<rparr>"

definition isSettled :: "job \<Rightarrow> bool" where
  "isSettled j = (settledAt j \<noteq> None)"

subsection \<open>Methods\<close>

text \<open>The loop of \<^verbatim>\<open>fireEvent\<close>: the listeners are called in the order of the array, each
  with the job; the first one that throws ends the loop, and its exception leaves
  \<^verbatim>\<open>fireEvent\<close> and the method that called it (there is no \<^verbatim>\<open>try\<close> in the class).\<close>

fun call_listeners :: "listener list \<Rightarrow> job \<Rightarrow> calls \<times> jsval option" where
  "call_listeners [] j = ([], None)"
| "call_listeners (l # ls) j =
     (case raises l of
        Some e \<Rightarrow> ([(l, j)], Some e)
      | None \<Rightarrow> ((l, j) # fst (call_listeners ls j), snd (call_listeners ls j)))"

definition fireEvent :: "job \<Rightarrow> JobEventType \<Rightarrow> calls \<times> jsval option" where
  "fireEvent j eventType = call_listeners (eventListeners j eventType) j"

definition start :: "job \<Rightarrow> nat \<Rightarrow> outcome" where
  "start j now =
     (if state j = PENDING \<or> state j = RETRYING
      then (let j' = j\<lparr>state := RUNNING, startedAt := Some now,
                        attempts := to_double (attempts j + 1)\<rparr>;
                fired = fireEvent j' EvStart
            in \<lparr>job_of = j', calls_of = fst fired, thrown = snd fired\<rparr>)
      else \<lparr>job_of = j, calls_of = [], thrown = None\<rparr>)"

definition setProgress :: "job \<Rightarrow> real \<Rightarrow> job \<times> calls" where
  "setProgress j percent = (j\<lparr>progress := min percent 100\<rparr>, [])"

definition complete :: "job \<Rightarrow> nat \<Rightarrow> jsval \<Rightarrow> outcome" where
  "complete j now res =
     (let j' = j\<lparr>result := res, progress := 100, state := COMPLETED, settledAt := Some now\<rparr>;
          fired = fireEvent j' EvComplete
      in \<lparr>job_of = j', calls_of = fst fired, thrown = snd fired\<rparr>)"

text \<open>Line 153, \<^verbatim>\<open>err?.message ? err.message : String(err)\<close>: the value stored in
  \<^verbatim>\<open>_error\<close>, or the exception of the conversion.\<close>

definition error_of :: "jsval \<Rightarrow> jsval + jsval" where
  "error_of err =
     (if ToBoolean (message_of err) then Inr (message_of err)
      else (case String_js err of Inl e \<Rightarrow> Inl e | Inr s \<Rightarrow> Inr (JSString s)))"

text \<open>An exception of line 153 leaves \<^verbatim>\<open>fail\<close> before any field is written.\<close>

definition fail :: "job \<Rightarrow> nat \<Rightarrow> jsval \<Rightarrow> outcome" where
  "fail j now err =
     (case error_of err of
        Inl e \<Rightarrow> \<lparr>job_of = j, calls_of = [], thrown = Some e\<rparr>
      | Inr msg \<Rightarrow>
          (let j1 = j\<lparr>error := msg, progress := 0\<rparr>;
               j2 = (if retries j1 \<ge> attempts j1 then j1\<lparr>state := RETRYING\<rparr>
                     else j1\<lparr>state := FAILED, settledAt := Some now\<rparr>);
               fired = fireEvent j2 EvFail
           in \<lparr>job_of = j2, calls_of = fst fired, thrown = snd fired\<rparr>))"

definition "defer" :: "job \<Rightarrow> job \<times> calls" where
  "defer j =
     (if state j = RUNNING then (j\<lparr>state := PENDING, attempts := 0\<rparr>, [])
      else (j, []))"

definition on :: "job \<Rightarrow> JobEventType \<Rightarrow> listener \<Rightarrow> job \<times> calls" where
  "on j eventType l =
     (j\<lparr>eventListeners := (eventListeners j)(eventType := eventListeners j eventType @ [l])\<rparr>, [])"

subsection \<open>Sequences of calls\<close>

text \<open>One call of a method of the class, with its arguments; \<open>Fail JSUndefined\<close> is
  \<^verbatim>\<open>fail()\<close> and \<open>Complete JSUndefined\<close> is \<^verbatim>\<open>complete()\<close>.\<close>

datatype operation =
    Start
  | SetProgress real
  | Complete jsval
  | Fail jsval
  | Defer
  | On JobEventType listener

text \<open>The outcome of one call made at time \<open>now\<close>. \<^verbatim>\<open>setProgress\<close>, \<^verbatim>\<open>defer\<close> and \<^verbatim>\<open>on\<close> have no
  statement that throws and call no listener.\<close>

fun step :: "job \<Rightarrow> nat \<Rightarrow> operation \<Rightarrow> outcome" where
  "step j now Start = start j now"
| "step j now (SetProgress p) =
     \<lparr>job_of = fst (setProgress j p), calls_of = snd (setProgress j p), thrown = None\<rparr>"
| "step j now (Complete r) = complete j now r"
| "step j now (Fail err) = fail j now err"
| "step j now Defer = \<lparr>job_of = fst (defer j), calls_of = snd (defer j), thrown = None\<rparr>"
| "step j now (On t l) = \<lparr>job_of = fst (on j t l), calls_of = snd (on j t l), thrown = None\<rparr>"

text \<open>The job after one call, whether the call returned or threw: what was written before
  an exception stays written.\<close>

definition job_after :: "job \<Rightarrow> nat \<times> operation \<Rightarrow> job" where
  "job_after j c = job_of (step j (fst c) (snd c))"

fun run :: "job \<Rightarrow> (nat \<times> operation) list \<Rightarrow> job" where
  "run j [] = j"
| "run j (c # cs) = run (job_after j c) cs"

text \<open>No \<^verbatim>\<open>fail\<close> of the sequence that gets past line 153 is called on a COMPLETED job that
  has a retry left (\<^verbatim>\<open>retries >= attempts\<close>).\<close>

fun no_retry_of_completed :: "job \<Rightarrow> (nat \<times> operation) list \<Rightarrow> bool" where
  "no_retry_of_completed j [] = True"
| "no_retry_of_completed j (c # cs) =
     ((case snd c of
         Fail err \<Rightarrow> state j \<noteq> COMPLETED \<or> \<not> retries j \<ge> attempts j \<or> isl (error_of err)
       | _ \<Rightarrow> True)
      \<and> no_retry_of_completed (job_after j c) cs)"

text \<open>\<^verbatim>\<open>new Job({ queueName, data, retries })\<close>: a configuration with no other field.\<close>

definition basic_config :: "string \<Rightarrow> jsval \<Rightarrow> real \<Rightarrow> JobConfig" where
  "basic_config q d r =
     \<lparr> cfg_queueName = q, cfg_data = d, cfg_id = None, cfg_state = None,
       cfg_retries = Some r, cfg_attempts = None, cfg_progress = None,
       cfg_createdAt = None, cfg_result = JSUndefined, cfg_error = JSUndefined,
       cfg_startedAt = None, cfg_settledAt = None \<rparr>"

text \<open>Of the listeners of an event, those that a firing calls (up to and with the first one
  that throws), and the exception with which the firing ends.\<close>

definition invoked :: "listener list \<Rightarrow> listener list" where
  "invoked ls =
     takeWhile (\<lambda>l. raises l = None) ls @ take 1 (dropWhile (\<lambda>l. raises l = None) ls)"

definition raised :: "listener list \<Rightarrow> jsval option" where
  "raised ls = (case dropWhile (\<lambda>l. raises l = None) ls of [] \<Rightarrow> None | l # rest \<Rightarrow> raises l)"

section \<open>Properties\<close>

subsection \<open>Rounding\<close>

lemma pow2_pos: "0 < pow2 k"
  by (simp add: pow2_def)

lemma round_half_even_of_int: "round_half_even (of_int m) = m"
  by (simp add: round_half_even_def)

lemma to_double_exact:
  assumes "x = of_int m * pow2 (binade x - 52)"
  shows "to_double x = x"
proof (cases "x = 0")
  case True
  then show ?thesis by (simp add: to_double_def)
next
  case False
  have "x / pow2 (binade x - 52) = of_int m"
    using assms pow2_pos [of "binade x - 52"]
    by (metis nonzero_mult_div_cancel_right less_irrefl)
  then show ?thesis
    using False assms by (simp add: to_double_def round_half_even_of_int)
qed

lemma binade_of_int:
  assumes "n \<noteq> 0"
  shows "binade (of_int n) = bitlen \<bar>n\<bar> - 1"
proof -
  have "1 \<le> \<bar>n\<bar>" using assms by simp
  then have "(1::real) \<le> \<bar>of_int n\<bar>" by linarith
  moreover have "0 \<le> bitlen \<bar>n\<bar>" by (rule bitlen_nonneg)
  moreover have "\<lfloor>\<bar>real_of_int n\<bar>\<rfloor> = \<bar>n\<bar>"
    by (metis floor_of_int of_int_abs)
  ultimately show ?thesis by (simp add: binade_def)
qed

lemma to_double_of_int:
  assumes "\<bar>n\<bar> \<le> 2 ^ 53"
  shows "to_double (of_int n) = of_int n"
proof (cases "n = 0")
  case True
  then show ?thesis by (simp add: to_double_def)
next
  case False
  define e where "e = bitlen \<bar>n\<bar> - 1"
  have pos: "0 < \<bar>n\<bar>" using False by simp
  have be: "binade (of_int n) = e"
    using False by (simp add: binade_of_int e_def)
  have lo: "2 ^ nat e \<le> \<bar>n\<bar>"
    using bitlen_bounds [OF pos] by (simp add: e_def)
  have e0: "0 \<le> e"
    using pos bitlen_eq_zero_iff [of "\<bar>n\<bar>"] bitlen_nonneg [of "\<bar>n\<bar>"] by (simp add: e_def)
  have le: "(2::int) ^ nat e \<le> 2 ^ 53" using lo assms by linarith
  have "nat e \<le> 53"
  proof (rule power_le_imp_le_exp [of "2::int"])
    show "1 < (2::int)" by simp
    show "(2::int) ^ nat e \<le> 2 ^ 53" by (rule le)
  qed
  then have e53: "e \<le> 53" by simp
  show ?thesis
  proof (cases "e \<le> 52")
    case True
    have "real_of_int n = of_int (n * 2 ^ nat (52 - e)) * pow2 (e - 52)"
    proof (cases "e = 52")
      case True
      then show ?thesis by (simp add: pow2_def)
    next
      case False
      with True have "e - 52 < 0" by simp
      then have "pow2 (e - 52) = 1 / 2 ^ nat (52 - e)"
        by (simp add: pow2_def)
      then show ?thesis by simp
    qed
    then show ?thesis using be by (intro to_double_exact [where m = "n * 2 ^ nat (52 - e)"]) simp
  next
    case False
    with e53 have e: "e = 53" by simp
    with lo assms have "\<bar>n\<bar> = 2 ^ 53" by simp
    then have "n = 2 ^ 53 \<or> n = - (2 ^ 53)" by linarith
    then have "real_of_int n = of_int (n div 2) * pow2 (e - 52)"
      using e by (auto simp: pow2_def)
    then show ?thesis using be by (intro to_double_exact [where m = "n div 2"]) simp
  qed
qed

lemma to_double_int:
  assumes "x \<in> \<int>" and "\<bar>x\<bar> \<le> 2 ^ 53"
  shows "to_double x = x"
proof -
  from assms(1) obtain n where x: "x = of_int n" by (auto elim: Ints_cases)
  with assms(2) have "\<bar>real_of_int n\<bar> \<le> 2 ^ 53" by simp
  then have "\<bar>n\<bar> \<le> 2 ^ 53"
    by (metis of_int_abs of_int_le_iff of_int_numeral of_int_power)
  then show ?thesis using x by (simp add: to_double_of_int)
qed

subsection \<open>Firing an event\<close>

lemma call_listeners_eq:
  "call_listeners ls j = (map (\<lambda>l. (l, j)) (invoked ls), raised ls)"
  by (induction ls) (auto simp: invoked_def raised_def)

lemma fireEvent_eq:
  "fireEvent j t = (map (\<lambda>l. (l, j)) (invoked (eventListeners j t)), raised (eventListeners j t))"
  by (simp add: fireEvent_def call_listeners_eq)

lemma invoked_all: "\<forall>l \<in> set ls. raises l = None \<Longrightarrow> invoked ls = ls"
  by (induction ls) (auto simp: invoked_def)

lemma raised_None_iff: "raised ls = None \<longleftrightarrow> (\<forall>l \<in> set ls. raises l = None)"
  by (induction ls) (auto simp: raised_def)

lemma invoked_first_throw:
  "\<forall>p \<in> set pre. raises p = None \<Longrightarrow> raises l = Some e \<Longrightarrow>
   invoked (pre @ l # post) = pre @ [l] \<and> raised (pre @ l # post) = Some e"
  by (induction pre) (auto simp: invoked_def raised_def)

subsection \<open>fail: retry or final failure\<close>

lemma error_of_embedded:
  "(\<forall>proto ps. err \<noteq> JSObject proto ps) \<Longrightarrow> \<exists>msg. error_of err = Inr msg"
  by (cases err) (auto simp: error_of_def)

text \<open>
  C1 (as the code has it). Every call of \<^verbatim>\<open>fail\<close> that gets past the conversion of its
  argument on line 153 (a call without an argument or with \<^verbatim>\<open>null\<close>, a boolean, a string or
  an \<^verbatim>\<open>Error\<close> always does) sets \<^verbatim>\<open>progress\<close> to 0; when \<^verbatim>\<open>retries >= attempts\<close> it sets the
  state to RETRYING and leaves \<^verbatim>\<open>settledAt\<close> as it was, otherwise it sets the state to FAILED
  and \<^verbatim>\<open>settledAt\<close> to the current time; it writes no field besides \<^verbatim>\<open>error\<close>, \<^verbatim>\<open>progress\<close>,
  \<^verbatim>\<open>state\<close> and \<^verbatim>\<open>settledAt\<close>; in both cases it then fires the \<^verbatim>\<open>fail\<close> event: the \<^verbatim>\<open>fail\<close>
  listeners are called in registration order with the updated job, all of them when none
  throws. With \<^verbatim>\<open>retries = 2\<close> the failures at \<^verbatim>\<open>attempts\<close> 1 and 2 give RETRYING and the
  failure at \<^verbatim>\<open>attempts = 3\<close> gives FAILED with \<^verbatim>\<open>settledAt\<close> set, also along
  \<^verbatim>\<open>start(); fail(); start(); fail(); start(); fail()\<close> on a new job.
\<close>

theorem fail_spec:
  "(error_of err = Inr msg \<longrightarrow>
      progress (job_of (fail j now err)) = 0 \<and>
      (retries j \<ge> attempts j \<longrightarrow>
         state (job_of (fail j now err)) = RETRYING \<and>
         settledAt (job_of (fail j now err)) = settledAt j) \<and>
      (\<not> retries j \<ge> attempts j \<longrightarrow>
         state (job_of (fail j now err)) = FAILED \<and>
         settledAt (job_of (fail j now err)) = Some now) \<and>
      job_of (fail j now err) =
        j\<lparr>error := msg, progress := 0, state := state (job_of (fail j now err)),
          settledAt := settledAt (job_of (fail j now err))\<rparr> \<and>
      calls_of (fail j now err) =
        map (\<lambda>l. (l, job_of (fail j now err))) (invoked (eventListeners j EvFail)) \<and>
      thrown (fail j now err) = raised (eventListeners j EvFail) \<and>
      ((\<forall>l \<in> set (eventListeners j EvFail). raises l = None) \<longrightarrow>
         calls_of (fail j now err) =
           map (\<lambda>l. (l, job_of (fail j now err))) (eventListeners j EvFail) \<and>
         thrown (fail j now err) = None)) \<and>
   ((\<forall>proto ps. err \<noteq> JSObject proto ps) \<longrightarrow> (\<exists>m. error_of err = Inr m)) \<and>
   (retries j = 2 \<and> error_of err = Inr msg \<longrightarrow>
      (attempts j = 1 \<or> attempts j = 2 \<longrightarrow>
         state (job_of (fail j now err)) = RETRYING \<and>
         settledAt (job_of (fail j now err)) = settledAt j) \<and>
      (attempts j = 3 \<longrightarrow>
         state (job_of (fail j now err)) = FAILED \<and>
         settledAt (job_of (fail j now err)) = Some now)) \<and>
   state (run (Job (basic_config q d 2) t0) [(t1, Start), (t2, Fail JSUndefined)]) = RETRYING \<and>
   settledAt (run (Job (basic_config q d 2) t0) [(t1, Start), (t2, Fail JSUndefined)]) = None \<and>
   state (run (Job (basic_config q d 2) t0)
     [(t1, Start), (t2, Fail JSUndefined), (t3, Start), (t4, Fail JSUndefined)]) = RETRYING \<and>
   settledAt (run (Job (basic_config q d 2) t0)
     [(t1, Start), (t2, Fail JSUndefined), (t3, Start), (t4, Fail JSUndefined)]) = None \<and>
   state (run (Job (basic_config q d 2) t0)
     [(t1, Start), (t2, Fail JSUndefined), (t3, Start), (t4, Fail JSUndefined),
      (t5, Start), (t6, Fail JSUndefined)]) = FAILED \<and>
   settledAt (run (Job (basic_config q d 2) t0)
     [(t1, Start), (t2, Fail JSUndefined), (t3, Start), (t4, Fail JSUndefined),
      (t5, Start), (t6, Fail JSUndefined)]) = Some t6"
proof -
  have general: "error_of err = Inr msg \<longrightarrow>
      progress (job_of (fail j now err)) = 0 \<and>
      (retries j \<ge> attempts j \<longrightarrow>
         state (job_of (fail j now err)) = RETRYING \<and>
         settledAt (job_of (fail j now err)) = settledAt j) \<and>
      (\<not> retries j \<ge> attempts j \<longrightarrow>
         state (job_of (fail j now err)) = FAILED \<and>
         settledAt (job_of (fail j now err)) = Some now) \<and>
      job_of (fail j now err) =
        j\<lparr>error := msg, progress := 0, state := state (job_of (fail j now err)),
          settledAt := settledAt (job_of (fail j now err))\<rparr> \<and>
      calls_of (fail j now err) =
        map (\<lambda>l. (l, job_of (fail j now err))) (invoked (eventListeners j EvFail)) \<and>
      thrown (fail j now err) = raised (eventListeners j EvFail) \<and>
      ((\<forall>l \<in> set (eventListeners j EvFail). raises l = None) \<longrightarrow>
         calls_of (fail j now err) =
           map (\<lambda>l. (l, job_of (fail j now err))) (eventListeners j EvFail) \<and>
         thrown (fail j now err) = None)"
    by (auto simp: fail_def fireEvent_eq invoked_all raised_None_iff Let_def)
  have embedded: "(\<forall>proto ps. err \<noteq> JSObject proto ps) \<longrightarrow> (\<exists>m. error_of err = Inr m)"
    using error_of_embedded by blast
  have two: "retries j = 2 \<and> error_of err = Inr msg \<longrightarrow>
      (attempts j = 1 \<or> attempts j = 2 \<longrightarrow>
         state (job_of (fail j now err)) = RETRYING \<and>
         settledAt (job_of (fail j now err)) = settledAt j) \<and>
      (attempts j = 3 \<longrightarrow>
         state (job_of (fail j now err)) = FAILED \<and>
         settledAt (job_of (fail j now err)) = Some now)"
    by (auto simp: fail_def Let_def)
  have sequence:
    "state (run (Job (basic_config q d 2) t0) [(t1, Start), (t2, Fail JSUndefined)]) = RETRYING"
    "settledAt (run (Job (basic_config q d 2) t0) [(t1, Start), (t2, Fail JSUndefined)]) = None"
    "state (run (Job (basic_config q d 2) t0)
       [(t1, Start), (t2, Fail JSUndefined), (t3, Start), (t4, Fail JSUndefined)]) = RETRYING"
    "settledAt (run (Job (basic_config q d 2) t0)
       [(t1, Start), (t2, Fail JSUndefined), (t3, Start), (t4, Fail JSUndefined)]) = None"
    "state (run (Job (basic_config q d 2) t0)
       [(t1, Start), (t2, Fail JSUndefined), (t3, Start), (t4, Fail JSUndefined),
        (t5, Start), (t6, Fail JSUndefined)]) = FAILED"
    "settledAt (run (Job (basic_config q d 2) t0)
       [(t1, Start), (t2, Fail JSUndefined), (t3, Start), (t4, Fail JSUndefined),
        (t5, Start), (t6, Fail JSUndefined)]) = Some t6"
    by (simp_all add: Job_def basic_config_def job_after_def start_def fail_def error_of_def
          fireEvent_def to_double_int Let_def)
  from general embedded two sequence show ?thesis by blast
qed

theorem fail_spec_witness:
  "error_of (JSString ''boom'') = Inr (JSString ''boom'') \<and>
   raises (Listener 4 None) = None \<and>
   retries (job_of (start (fst (on (Job (basic_config ''mail'' JSNull 2) 0) EvFail
      (Listener 4 None))) 1)) = 2 \<and>
   attempts (job_of (start (fst (on (Job (basic_config ''mail'' JSNull 2) 0) EvFail
      (Listener 4 None))) 1)) = 1 \<and>
   fail (job_of (start (fst (on (Job (basic_config ''mail'' JSNull 2) 0) EvFail
      (Listener 4 None))) 1)) 7 (JSString ''boom'') =
     \<lparr>job_of = (Job (basic_config ''mail'' JSNull 2) 0)
        \<lparr>error := JSString ''boom'', progress := 0, state := RETRYING, attempts := 1,
         startedAt := Some 1, eventListeners := (\<lambda>t. [])(EvFail := [Listener 4 None])\<rparr>,
      calls_of = [(Listener 4 None, (Job (basic_config ''mail'' JSNull 2) 0)
        \<lparr>error := JSString ''boom'', progress := 0, state := RETRYING, attempts := 1,
         startedAt := Some 1, eventListeners := (\<lambda>t. [])(EvFail := [Listener 4 None])\<rparr>)],
      thrown = None\<rparr> \<and>
   retries (run (fst (on (Job (basic_config ''mail'' JSNull 2) 0) EvFail (Listener 4 None)))
     [(1, Start), (2, Fail JSUndefined), (3, Start), (4, Fail JSUndefined), (5, Start)]) = 2 \<and>
   attempts (run (fst (on (Job (basic_config ''mail'' JSNull 2) 0) EvFail (Listener 4 None)))
     [(1, Start), (2, Fail JSUndefined), (3, Start), (4, Fail JSUndefined), (5, Start)]) = 3 \<and>
   fail (run (fst (on (Job (basic_config ''mail'' JSNull 2) 0) EvFail (Listener 4 None)))
     [(1, Start), (2, Fail JSUndefined), (3, Start), (4, Fail JSUndefined), (5, Start)])
     7 (JSString ''boom'') =
     \<lparr>job_of = (Job (basic_config ''mail'' JSNull 2) 0)
        \<lparr>error := JSString ''boom'', progress := 0, state := FAILED, attempts := 3,
         startedAt := Some 5, settledAt := Some 7,
         eventListeners := (\<lambda>t. [])(EvFail := [Listener 4 None])\<rparr>,
      calls_of = [(Listener 4 None, (Job (basic_config ''mail'' JSNull 2) 0)
        \<lparr>error := JSString ''boom'', progress := 0, state := FAILED, attempts := 3,
         startedAt := Some 5, settledAt := Some 7,
         eventListeners := (\<lambda>t. [])(EvFail := [Listener 4 None])\<rparr>)],
      thrown = None\<rparr>"
  using fail_spec [where err = "JSString ''boom''" and msg = "JSString ''boom''"
      and j = "job_of (start (fst (on (Job (basic_config ''mail'' JSNull 2) 0) EvFail
        (Listener 4 None))) 1)" and now = 7]
    fail_spec [where err = "JSString ''boom''" and msg = "JSString ''boom''"
      and j = "run (fst (on (Job (basic_config ''mail'' JSNull 2) 0) EvFail (Listener 4 None)))
        [(1, Start), (2, Fail JSUndefined), (3, Start), (4, Fail JSUndefined), (5, Start)]"
      and now = 7]
  by (simp add: Job_def basic_config_def job_after_def on_def start_def fail_def error_of_def
        fireEvent_def to_double_int Let_def)

text \<open>The claim as it is stated fails: on a started job with a \<^verbatim>\<open>fail\<close> listener and progress
  30, \<^verbatim>\<open>fail(Object.create(null))\<close> throws the \<^verbatim>\<open>TypeError\<close> of \<^verbatim>\<open>String\<close>; \<^verbatim>\<open>progress\<close> stays 30, the
  state stays RUNNING and no listener is called.\<close>

theorem fail_spec_counterexample:
  "eventListeners (fst (setProgress (job_of (start (fst (on (Job (basic_config ''mail'' JSNull 2) 0)
      EvFail (Listener 4 None))) 1)) 30)) EvFail = [Listener 4 None] \<and>
   thrown (fail (fst (setProgress (job_of (start (fst (on (Job (basic_config ''mail'' JSNull 2) 0)
      EvFail (Listener 4 None))) 1)) 30)) 9 (JSObject False []))
     = Some (JSError ''TypeError'' ''Cannot convert object to primitive value'') \<and>
   progress (job_of (fail (fst (setProgress (job_of (start (fst (on
      (Job (basic_config ''mail'' JSNull 2) 0) EvFail (Listener 4 None))) 1)) 30)) 9
      (JSObject False []))) = 30 \<and>
   state (job_of (fail (fst (setProgress (job_of (start (fst (on
      (Job (basic_config ''mail'' JSNull 2) 0) EvFail (Listener 4 None))) 1)) 30)) 9
      (JSObject False []))) = RUNNING \<and>
   calls_of (fail (fst (setProgress (job_of (start (fst (on
      (Job (basic_config ''mail'' JSNull 2) 0) EvFail (Listener 4 None))) 1)) 30)) 9
      (JSObject False [])) = []"
  by (simp add: Job_def basic_config_def on_def start_def setProgress_def fail_def error_of_def
        fireEvent_def to_double_int Let_def)

subsection \<open>settledAt along sequences of calls\<close>

lemma step_settledAt:
  "settledAt (job_of (step j now op)) =
     (if (\<exists>r. op = Complete r) \<or>
         (\<exists>e m. op = Fail e \<and> error_of e = Inr m \<and> \<not> retries j \<ge> attempts j)
      then Some now else settledAt j)"
  by (cases op)
     (auto simp: start_def setProgress_def complete_def fail_def defer_def on_def Let_def
           split: sum.splits)

text \<open>What holds of a job reached from a new PENDING job as long as the invariant is
  intact.\<close>

lemma job_after_keeps_unsettled:
  assumes "(state j = COMPLETED \<and> settledAt j \<noteq> None)
           \<or> (state j = FAILED \<and> \<not> retries j \<ge> attempts j)
           \<or> (state j \<noteq> COMPLETED \<and> state j \<noteq> FAILED \<and> settledAt j = None)"
    and "case snd c of
           Fail err \<Rightarrow> state j \<noteq> COMPLETED \<or> \<not> retries j \<ge> attempts j \<or> isl (error_of err)
         | _ \<Rightarrow> True"
  shows "(state (job_after j c) = COMPLETED \<and> settledAt (job_after j c) \<noteq> None)
         \<or> (state (job_after j c) = FAILED
             \<and> \<not> retries (job_after j c) \<ge> attempts (job_after j c))
         \<or> (state (job_after j c) \<noteq> COMPLETED \<and> state (job_after j c) \<noteq> FAILED
             \<and> settledAt (job_after j c) = None)"
  using assms
  by (cases "snd c")
     (auto simp: job_after_def start_def setProgress_def complete_def fail_def
                 defer_def on_def Let_def
           split: if_splits sum.splits)

lemma run_keeps_unsettled:
  "(state j = COMPLETED \<and> settledAt j \<noteq> None)
     \<or> (state j = FAILED \<and> \<not> retries j \<ge> attempts j)
     \<or> (state j \<noteq> COMPLETED \<and> state j \<noteq> FAILED \<and> settledAt j = None) \<Longrightarrow>
   no_retry_of_completed j ops \<Longrightarrow>
   state (run j ops) = COMPLETED \<or> state (run j ops) = FAILED \<or> settledAt (run j ops) = None"
proof (induction ops arbitrary: j)
  case Nil
  then show ?case by auto
next
  case (Cons c ops)
  from Cons.prems have "(state (job_after j c) = COMPLETED \<and> settledAt (job_after j c) \<noteq> None)
         \<or> (state (job_after j c) = FAILED
             \<and> \<not> retries (job_after j c) \<ge> attempts (job_after j c))
         \<or> (state (job_after j c) \<noteq> COMPLETED \<and> state (job_after j c) \<noteq> FAILED
             \<and> settledAt (job_after j c) = None)"
    by (intro job_after_keeps_unsettled) simp_all
  moreover from Cons.prems have "no_retry_of_completed (job_after j c) ops" by simp
  ultimately show ?case using Cons.IH by simp
qed

lemma no_retry_of_completed_take:
  "no_retry_of_completed j ops \<Longrightarrow> no_retry_of_completed j (take n ops)"
proof (induction ops arbitrary: j n)
  case Nil
  then show ?case by simp
next
  case (Cons c ops)
  then show ?case by (cases n) simp_all
qed

lemma retry_of_completed_unsettles:
  assumes "state j = COMPLETED" and "settledAt j \<noteq> None"
    and "\<not> (case snd c of
           Fail err \<Rightarrow> state j \<noteq> COMPLETED \<or> \<not> retries j \<ge> attempts j \<or> isl (error_of err)
         | _ \<Rightarrow> True)"
  shows "state (job_after j c) = RETRYING \<and> settledAt (job_after j c) \<noteq> None"
  using assms
  by (cases "snd c")
     (auto simp: job_after_def fail_def Let_def split: sum.splits)

lemma retry_of_completed_shows:
  "(state j = COMPLETED \<and> settledAt j \<noteq> None)
     \<or> (state j = FAILED \<and> \<not> retries j \<ge> attempts j)
     \<or> (state j \<noteq> COMPLETED \<and> state j \<noteq> FAILED \<and> settledAt j = None) \<Longrightarrow>
   \<not> no_retry_of_completed j ops \<Longrightarrow>
   \<exists>n. state (run j (take n ops)) = RETRYING \<and> settledAt (run j (take n ops)) \<noteq> None"
proof (induction ops arbitrary: j)
  case Nil
  then show ?case by simp
next
  case (Cons c ops)
  show ?case
  proof (cases "case snd c of
           Fail err \<Rightarrow> state j \<noteq> COMPLETED \<or> \<not> retries j \<ge> attempts j \<or> isl (error_of err)
         | _ \<Rightarrow> True")
    case True
    with Cons.prems(1) have "(state (job_after j c) = COMPLETED \<and> settledAt (job_after j c) \<noteq> None)
         \<or> (state (job_after j c) = FAILED
             \<and> \<not> retries (job_after j c) \<ge> attempts (job_after j c))
         \<or> (state (job_after j c) \<noteq> COMPLETED \<and> state (job_after j c) \<noteq> FAILED
             \<and> settledAt (job_after j c) = None)"
      by (intro job_after_keeps_unsettled)
    moreover from True Cons.prems(2) have "\<not> no_retry_of_completed (job_after j c) ops"
      by simp
    ultimately obtain n where
      "state (run (job_after j c) (take n ops)) = RETRYING \<and>
       settledAt (run (job_after j c) (take n ops)) \<noteq> None"
      using Cons.IH by blast
    then have "state (run j (take (Suc n) (c # ops))) = RETRYING \<and>
       settledAt (run j (take (Suc n) (c # ops))) \<noteq> None"
      by simp
    then show ?thesis by blast
  next
    case False
    then have completed: "state j = COMPLETED"
      by (cases "snd c") auto
    with Cons.prems(1) have "settledAt j \<noteq> None" by auto
    with completed False have "state (job_after j c) = RETRYING \<and>
        settledAt (job_after j c) \<noteq> None"
      by (intro retry_of_completed_unsettles)
    then have "state (run j (take (Suc 0) (c # ops))) = RETRYING \<and>
       settledAt (run j (take (Suc 0) (c # ops))) \<noteq> None"
      by simp
    then show ?thesis by blast
  qed
qed

text \<open>
  C2 (as the code has it). A call writes \<^verbatim>\<open>settledAt\<close>, with the current time, exactly when
  it is \<^verbatim>\<open>complete\<close>, or a \<^verbatim>\<open>fail\<close> that gets past the conversion of its argument with
  \<^verbatim>\<open>retries < attempts\<close> (the transition into FAILED); every other call leaves \<^verbatim>\<open>settledAt\<close> as
  it was, and no call clears it. For a job constructed in state PENDING without
  \<^verbatim>\<open>settledAt\<close> and a sequence of calls in which no \<^verbatim>\<open>fail\<close> that gets past the conversion of
  its argument is called on a COMPLETED job with \<^verbatim>\<open>retries >= attempts\<close>, \<^verbatim>\<open>settledAt\<close> is absent
  after every prefix of the sequence that ends in state PENDING, RUNNING or RETRYING; and
  a sequence with such a \<^verbatim>\<open>fail\<close> has a prefix that ends in RETRYING with \<^verbatim>\<open>settledAt\<close> set.
\<close>

theorem settledAt_spec:
  "settledAt (job_of (step j now op)) =
     (if (\<exists>r. op = Complete r) \<or>
         (\<exists>e m. op = Fail e \<and> error_of e = Inr m \<and> \<not> retries j \<ge> attempts j)
      then Some now else settledAt j) \<and>
   (state (Job config t0) = PENDING \<and> settledAt (Job config t0) = None \<and>
    no_retry_of_completed (Job config t0) ops \<longrightarrow>
      (\<forall>n. state (run (Job config t0) (take n ops)) = PENDING \<or>
            state (run (Job config t0) (take n ops)) = RUNNING \<or>
            state (run (Job config t0) (take n ops)) = RETRYING \<longrightarrow>
            settledAt (run (Job config t0) (take n ops)) = None)) \<and>
   (state (Job config t0) = PENDING \<and> settledAt (Job config t0) = None \<and>
    \<not> no_retry_of_completed (Job config t0) ops \<longrightarrow>
      (\<exists>n. state (run (Job config t0) (take n ops)) = RETRYING \<and>
           settledAt (run (Job config t0) (take n ops)) \<noteq> None))"
proof (intro conjI impI allI)
  show "settledAt (job_of (step j now op)) =
     (if (\<exists>r. op = Complete r) \<or>
         (\<exists>e m. op = Fail e \<and> error_of e = Inr m \<and> \<not> retries j \<ge> attempts j)
      then Some now else settledAt j)"
    by (rule step_settledAt)
next
  fix n
  assume init: "state (Job config t0) = PENDING \<and> settledAt (Job config t0) = None \<and>
    no_retry_of_completed (Job config t0) ops"
  assume st: "state (run (Job config t0) (take n ops)) = PENDING \<or>
            state (run (Job config t0) (take n ops)) = RUNNING \<or>
            state (run (Job config t0) (take n ops)) = RETRYING"
  from init have "no_retry_of_completed (Job config t0) (take n ops)"
    by (simp add: no_retry_of_completed_take)
  with init have "state (run (Job config t0) (take n ops)) = COMPLETED \<or>
      state (run (Job config t0) (take n ops)) = FAILED \<or>
      settledAt (run (Job config t0) (take n ops)) = None"
    by (intro run_keeps_unsettled) simp_all
  with st show "settledAt (run (Job config t0) (take n ops)) = None" by auto
next
  assume "state (Job config t0) = PENDING \<and> settledAt (Job config t0) = None \<and>
    \<not> no_retry_of_completed (Job config t0) ops"
  then show "\<exists>n. state (run (Job config t0) (take n ops)) = RETRYING \<and>
           settledAt (run (Job config t0) (take n ops)) \<noteq> None"
    by (intro retry_of_completed_shows) simp_all
qed

theorem settledAt_spec_witness:
  "settledAt (job_of (step (Job (basic_config ''mail'' JSNull 0) 0) 4 (Complete JSNull)))
     = Some 4 \<and>
   state (Job (basic_config ''mail'' JSNull 0) 0) = PENDING \<and>
   settledAt (Job (basic_config ''mail'' JSNull 0) 0) = None \<and>
   no_retry_of_completed (Job (basic_config ''mail'' JSNull 0) 0)
     [(1, Start), (2, Complete JSNull), (3, Fail JSUndefined), (4, SetProgress 10)] \<and>
   state (run (Job (basic_config ''mail'' JSNull 0) 0)
     (take 1 [(1, Start), (2, Complete JSNull), (3, Fail JSUndefined), (4, SetProgress 10)]))
     = RUNNING \<and>
   settledAt (run (Job (basic_config ''mail'' JSNull 0) 0)
     (take 1 [(1, Start), (2, Complete JSNull), (3, Fail JSUndefined), (4, SetProgress 10)]))
     = None \<and>
   state (run (Job (basic_config ''mail'' JSNull 0) 0)
     [(1, Start), (2, Complete JSNull), (3, Fail JSUndefined), (4, SetProgress 10)]) = FAILED \<and>
   settledAt (run (Job (basic_config ''mail'' JSNull 0) 0)
     [(1, Start), (2, Complete JSNull), (3, Fail JSUndefined), (4, SetProgress 10)]) = Some 3 \<and>
   no_retry_of_completed (Job (basic_config ''mail'' JSNull 1) 0)
     [(1, Start), (2, Complete JSNull), (3, Fail (JSObject False []))] \<and>
   state (run (Job (basic_config ''mail'' JSNull 1) 0)
     [(1, Start), (2, Complete JSNull), (3, Fail (JSObject False []))]) = COMPLETED \<and>
   \<not> no_retry_of_completed (Job (basic_config ''mail'' JSNull 1) 0)
     [(1, Start), (2, Complete JSNull), (3, Fail JSUndefined)] \<and>
   state (run (Job (basic_config ''mail'' JSNull 1) 0)
     (take 3 [(1, Start), (2, Complete JSNull), (3, Fail JSUndefined)])) = RETRYING \<and>
   settledAt (run (Job (basic_config ''mail'' JSNull 1) 0)
     (take 3 [(1, Start), (2, Complete JSNull), (3, Fail JSUndefined)])) = Some 2"
  using settledAt_spec [where j = "Job (basic_config ''mail'' JSNull 0) 0" and now = 4
      and op = "Complete JSNull" and config = "basic_config ''mail'' JSNull 0"
      and ops = "[(1, Start), (2, Complete JSNull), (3, Fail JSUndefined), (4, SetProgress 10)]"]
    settledAt_spec [where config = "basic_config ''mail'' JSNull 1"
      and ops = "[(1, Start), (2, Complete JSNull), (3, Fail (JSObject False []))]"]
    settledAt_spec [where config = "basic_config ''mail'' JSNull 1"
      and ops = "[(1, Start), (2, Complete JSNull), (3, Fail JSUndefined)]"]
  by (simp add: Job_def basic_config_def job_after_def start_def complete_def setProgress_def
        fail_def error_of_def fireEvent_def to_double_int Let_def)

text \<open>The claim as it is stated fails: \<^verbatim>\<open>fail()\<close> after \<^verbatim>\<open>complete()\<close> on a job with a retry
  left gives state RETRYING and keeps the \<^verbatim>\<open>settledAt\<close> of the completion.\<close>

theorem settledAt_counterexample:
  "state (Job (basic_config ''mail'' JSNull 1) 0) = PENDING \<and>
   settledAt (Job (basic_config ''mail'' JSNull 1) 0) = None \<and>
   state (run (Job (basic_config ''mail'' JSNull 1) 0)
            [(1, Start), (2, Complete JSNull), (3, Fail JSUndefined)]) = RETRYING \<and>
   settledAt (run (Job (basic_config ''mail'' JSNull 1) 0)
            [(1, Start), (2, Complete JSNull), (3, Fail JSUndefined)]) = Some 2"
  by (simp add: Job_def basic_config_def job_after_def start_def complete_def fail_def
        error_of_def fireEvent_def to_double_int Let_def)

subsection \<open>start\<close>

lemma increment_exact:
  assumes "a \<in> \<int>" and "- (2 ^ 53) \<le> a" and "a < 2 ^ 53"
  shows "to_double (a + 1) = a + 1"
proof (rule to_double_int)
  show "a + 1 \<in> \<int>" using assms(1) by simp
  from assms(1) obtain n where a: "a = of_int n" by (auto elim: Ints_cases)
  from assms(3) a have "real_of_int n < 2 ^ 53" by simp
  then have "n < 2 ^ 53"
    by (metis of_int_less_iff of_int_numeral of_int_power)
  then have "n + 1 \<le> 2 ^ 53" by simp
  then have "real_of_int (n + 1) \<le> 2 ^ 53"
    by (metis of_int_le_iff of_int_numeral of_int_power)
  with a have "a + 1 \<le> 2 ^ 53" by simp
  with assms(2) show "\<bar>a + 1\<bar> \<le> 2 ^ 53" by simp
qed

text \<open>
  C3 (as the code has it). In state PENDING or RETRYING, \<^verbatim>\<open>start()\<close> sets the state to
  RUNNING, sets \<^verbatim>\<open>startedAt\<close> to the current time and sets \<^verbatim>\<open>attempts\<close> to the double nearest to
  \<^verbatim>\<open>attempts + 1\<close>, which is exactly \<^verbatim>\<open>attempts + 1\<close> for every integer \<^verbatim>\<open>attempts\<close> from \<open>-2^53\<close>
  to below \<open>2^53\<close>; it then fires the \<^verbatim>\<open>start\<close> event: the \<^verbatim>\<open>start\<close> listeners are called in
  registration order with the updated job, all of them when none throws. In state RUNNING,
  COMPLETED or FAILED it returns the job as it was (so state, attempts and startedAt are
  unchanged) and calls no listener.
\<close>

theorem start_spec:
  "(state j = PENDING \<or> state j = RETRYING \<longrightarrow>
      state (job_of (start j now)) = RUNNING \<and>
      attempts (job_of (start j now)) = to_double (attempts j + 1) \<and>
      (attempts j \<in> \<int> \<and> - (2 ^ 53) \<le> attempts j \<and> attempts j < 2 ^ 53 \<longrightarrow>
         attempts (job_of (start j now)) = attempts j + 1) \<and>
      startedAt (job_of (start j now)) = Some now \<and>
      job_of (start j now) =
        j\<lparr>state := RUNNING, startedAt := Some now, attempts := to_double (attempts j + 1)\<rparr> \<and>
      calls_of (start j now) =
        map (\<lambda>l. (l, job_of (start j now))) (invoked (eventListeners j EvStart)) \<and>
      thrown (start j now) = raised (eventListeners j EvStart) \<and>
      ((\<forall>l \<in> set (eventListeners j EvStart). raises l = None) \<longrightarrow>
         calls_of (start j now) =
           map (\<lambda>l. (l, job_of (start j now))) (eventListeners j EvStart) \<and>
         thrown (start j now) = None)) \<and>
   (state j = RUNNING \<or> state j = COMPLETED \<or> state j = FAILED \<longrightarrow>
      start j now = \<lparr>job_of = j, calls_of = [], thrown = None\<rparr>)"
  by (auto simp: start_def fireEvent_eq invoked_all raised_None_iff increment_exact Let_def)

theorem start_spec_witness:
  "state (fst (on (Job (basic_config ''mail'' JSNull 1) 0) EvStart (Listener 5 None)))
     = PENDING \<and>
   attempts (fst (on (Job (basic_config ''mail'' JSNull 1) 0) EvStart (Listener 5 None))) = 0 \<and>
   (0 :: real) \<in> \<int> \<and> - (2 ^ 53) \<le> (0 :: real) \<and> (0 :: real) < 2 ^ 53 \<and>
   raises (Listener 5 None) = None \<and>
   start (fst (on (Job (basic_config ''mail'' JSNull 1) 0) EvStart (Listener 5 None))) 3 =
     \<lparr>job_of = (Job (basic_config ''mail'' JSNull 1) 0)
        \<lparr>state := RUNNING, startedAt := Some 3, attempts := 1,
         eventListeners := (\<lambda>t. [])(EvStart := [Listener 5 None])\<rparr>,
      calls_of = [(Listener 5 None, (Job (basic_config ''mail'' JSNull 1) 0)
        \<lparr>state := RUNNING, startedAt := Some 3, attempts := 1,
         eventListeners := (\<lambda>t. [])(EvStart := [Listener 5 None])\<rparr>)],
      thrown = None\<rparr> \<and>
   state (job_of (complete (fst (on (Job (basic_config ''mail'' JSNull 1) 0) EvStart
      (Listener 5 None))) 2 JSNull)) = COMPLETED \<and>
   start (job_of (complete (fst (on (Job (basic_config ''mail'' JSNull 1) 0) EvStart
      (Listener 5 None))) 2 JSNull)) 3 =
     \<lparr>job_of = job_of (complete (fst (on (Job (basic_config ''mail'' JSNull 1) 0) EvStart
        (Listener 5 None))) 2 JSNull),
      calls_of = [], thrown = None\<rparr>"
  using start_spec [of "fst (on (Job (basic_config ''mail'' JSNull 1) 0) EvStart (Listener 5 None))" 3]
    start_spec [of "job_of (complete (fst (on (Job (basic_config ''mail'' JSNull 1) 0) EvStart
      (Listener 5 None))) 2 JSNull)" 3]
  by (simp add: Job_def basic_config_def on_def start_def complete_def fireEvent_def
        to_double_int Let_def)

text \<open>The claim as it is stated fails: a job constructed with \<^verbatim>\<open>attempts: 9007199254740992\<close>
  (\<open>2^53\<close>) is PENDING, and \<^verbatim>\<open>start()\<close> leaves \<^verbatim>\<open>attempts\<close> at \<open>2^53\<close>, the double nearest to
  \<open>2^53 + 1\<close>.\<close>

theorem start_counterexample:
  "state (Job ((basic_config ''mail'' JSNull 0)\<lparr>cfg_attempts := Some 9007199254740992\<rparr>) 0)
     = PENDING \<and>
   attempts (Job ((basic_config ''mail'' JSNull 0)\<lparr>cfg_attempts := Some 9007199254740992\<rparr>) 0)
     = 9007199254740992 \<and>
   state (job_of (start
     (Job ((basic_config ''mail'' JSNull 0)\<lparr>cfg_attempts := Some 9007199254740992\<rparr>) 0) 1))
     = RUNNING \<and>
   attempts (job_of (start
     (Job ((basic_config ''mail'' JSNull 0)\<lparr>cfg_attempts := Some 9007199254740992\<rparr>) 0) 1))
     = 9007199254740992"
  by (simp add: Job_def basic_config_def start_def fireEvent_def Let_def to_double_def
        binade_def round_half_even_def pow2_def compute_bitlen)

subsection \<open>complete\<close>

text \<open>
  C4 (as the code has it). In any state and for any value \<open>x\<close>, \<^verbatim>\<open>complete(x)\<close> sets the state
  to COMPLETED, \<^verbatim>\<open>result\<close> to \<open>x\<close>, \<^verbatim>\<open>progress\<close> to 100 and \<^verbatim>\<open>settledAt\<close> to the current time, so
  that \<^verbatim>\<open>isSettled\<close> is true, and writes no other field; before it returns it calls the
  listeners registered for \<^verbatim>\<open>complete\<close> in registration order, each with the job in which
  all these fields are already updated. When none of these listeners throws, there is
  exactly one call for each registration and \<^verbatim>\<open>complete\<close> returns; the first listener that
  throws is the last one called, and \<^verbatim>\<open>complete\<close> ends with its exception, the fields
  staying written. A listener added by \<^verbatim>\<open>on('complete', l)\<close> comes last in the order.
\<close>

theorem complete_spec:
  "job_of (complete j now x) =
     j\<lparr>result := x, progress := 100, state := COMPLETED, settledAt := Some now\<rparr> \<and>
   state (job_of (complete j now x)) = COMPLETED \<and>
   result (job_of (complete j now x)) = x \<and>
   progress (job_of (complete j now x)) = 100 \<and>
   settledAt (job_of (complete j now x)) = Some now \<and>
   isSettled (job_of (complete j now x)) \<and>
   calls_of (complete j now x) =
     map (\<lambda>l. (l, job_of (complete j now x))) (invoked (eventListeners j EvComplete)) \<and>
   thrown (complete j now x) = raised (eventListeners j EvComplete) \<and>
   ((\<forall>l \<in> set (eventListeners j EvComplete). raises l = None) \<longrightarrow>
      calls_of (complete j now x) =
        map (\<lambda>l. (l, job_of (complete j now x))) (eventListeners j EvComplete) \<and>
      map fst (calls_of (complete j now x)) = eventListeners j EvComplete \<and>
      thrown (complete j now x) = None) \<and>
   (eventListeners j EvComplete = pre @ l # post \<and> (\<forall>p \<in> set pre. raises p = None) \<and>
    raises l = Some e \<longrightarrow>
      calls_of (complete j now x) =
        map (\<lambda>l. (l, job_of (complete j now x))) (pre @ [l]) \<and>
      thrown (complete j now x) = Some e) \<and>
   eventListeners (fst (on j EvComplete l')) EvComplete = eventListeners j EvComplete @ [l']"
proof -
  have fields: "job_of (complete j now x) =
      j\<lparr>result := x, progress := 100, state := COMPLETED, settledAt := Some now\<rparr>"
    "state (job_of (complete j now x)) = COMPLETED"
    "result (job_of (complete j now x)) = x"
    "progress (job_of (complete j now x)) = 100"
    "settledAt (job_of (complete j now x)) = Some now"
    "isSettled (job_of (complete j now x))"
    by (simp_all add: complete_def isSettled_def Let_def)
  have fired: "calls_of (complete j now x) =
      map (\<lambda>l. (l, job_of (complete j now x))) (invoked (eventListeners j EvComplete))"
    "thrown (complete j now x) = raised (eventListeners j EvComplete)"
    by (simp_all add: complete_def fireEvent_eq Let_def)
  have quiet: "(\<forall>l \<in> set (eventListeners j EvComplete). raises l = None) \<longrightarrow>
      calls_of (complete j now x) =
        map (\<lambda>l. (l, job_of (complete j now x))) (eventListeners j EvComplete) \<and>
      map fst (calls_of (complete j now x)) = eventListeners j EvComplete \<and>
      thrown (complete j now x) = None"
    by (simp add: fired invoked_all raised_None_iff comp_def)
  have throwing: "eventListeners j EvComplete = pre @ l # post \<and>
      (\<forall>p \<in> set pre. raises p = None) \<and> raises l = Some e \<longrightarrow>
      calls_of (complete j now x) =
        map (\<lambda>l. (l, job_of (complete j now x))) (pre @ [l]) \<and>
      thrown (complete j now x) = Some e"
    using invoked_first_throw [of pre l e post] by (auto simp: fired)
  have added: "eventListeners (fst (on j EvComplete l')) EvComplete
      = eventListeners j EvComplete @ [l']"
    by (simp add: on_def)
  from fields fired quiet throwing added show ?thesis
    by blast
qed

theorem complete_spec_witness:
  "raises (Listener 8 None) = None \<and> raises (Listener 5 None) = None \<and>
   complete (fst (on (fst (on (Job (basic_config ''mail'' JSNull 1) 0) EvComplete
     (Listener 8 None))) EvComplete (Listener 5 None))) 3 (JSString ''sent'') =
     \<lparr>job_of = (Job (basic_config ''mail'' JSNull 1) 0)
        \<lparr>result := JSString ''sent'', progress := 100, state := COMPLETED, settledAt := Some 3,
         eventListeners := (\<lambda>t. [])(EvComplete := [Listener 8 None, Listener 5 None])\<rparr>,
      calls_of =
        [(Listener 8 None, (Job (basic_config ''mail'' JSNull 1) 0)
            \<lparr>result := JSString ''sent'', progress := 100, state := COMPLETED,
             settledAt := Some 3,
             eventListeners := (\<lambda>t. [])(EvComplete := [Listener 8 None, Listener 5 None])\<rparr>),
         (Listener 5 None, (Job (basic_config ''mail'' JSNull 1) 0)
            \<lparr>result := JSString ''sent'', progress := 100, state := COMPLETED,
             settledAt := Some 3,
             eventListeners := (\<lambda>t. [])(EvComplete := [Listener 8 None, Listener 5 None])\<rparr>)],
      thrown = None\<rparr> \<and>
   eventListeners (fst (on (fst (on (fst (on (Job (basic_config ''mail'' JSNull 1) 0) EvComplete
     (Listener 8 None))) EvComplete (Listener 5 (Some (JSString ''late''))))) EvComplete
     (Listener 6 None))) EvComplete
     = [Listener 8 None] @ Listener 5 (Some (JSString ''late'')) # [Listener 6 None] \<and>
   raises (Listener 5 (Some (JSString ''late''))) = Some (JSString ''late'') \<and>
   map fst (calls_of (complete (fst (on (fst (on (fst (on (Job (basic_config ''mail'' JSNull 1) 0)
     EvComplete (Listener 8 None))) EvComplete (Listener 5 (Some (JSString ''late'')))))
     EvComplete (Listener 6 None))) 3 JSNull))
     = [Listener 8 None, Listener 5 (Some (JSString ''late''))] \<and>
   thrown (complete (fst (on (fst (on (fst (on (Job (basic_config ''mail'' JSNull 1) 0)
     EvComplete (Listener 8 None))) EvComplete (Listener 5 (Some (JSString ''late'')))))
     EvComplete (Listener 6 None))) 3 JSNull) = Some (JSString ''late'')"
  using complete_spec [where j = "fst (on (fst (on (Job (basic_config ''mail'' JSNull 1) 0)
      EvComplete (Listener 8 None))) EvComplete (Listener 5 None))" and now = 3
      and x = "JSString ''sent''"]
    complete_spec [where j = "fst (on (fst (on (fst (on (Job (basic_config ''mail'' JSNull 1) 0)
      EvComplete (Listener 8 None))) EvComplete (Listener 5 (Some (JSString ''late'')))))
      EvComplete (Listener 6 None))" and now = 3 and x = JSNull and pre = "[Listener 8 None]"
      and l = "Listener 5 (Some (JSString ''late''))" and post = "[Listener 6 None]"
      and e = "JSString ''late''"]
  by (simp add: Job_def basic_config_def on_def complete_def fireEvent_def invoked_def
        raised_def Let_def)

text \<open>The claim as it is stated fails: with two \<^verbatim>\<open>complete\<close> listeners of which the first throws
  \<^verbatim>\<open>new Error("boom")\<close>, \<^verbatim>\<open>complete()\<close> calls the first listener only and ends with that
  exception; the second listener is not called.\<close>

theorem complete_counterexample:
  "eventListeners (fst (on (fst (on (Job (basic_config ''mail'' JSNull 1) 0) EvComplete
     (Listener 1 (Some (JSError ''Error'' ''boom''))))) EvComplete (Listener 2 None))) EvComplete
     = [Listener 1 (Some (JSError ''Error'' ''boom'')), Listener 2 None] \<and>
   map fst (calls_of (complete (fst (on (fst (on (Job (basic_config ''mail'' JSNull 1) 0) EvComplete
     (Listener 1 (Some (JSError ''Error'' ''boom''))))) EvComplete (Listener 2 None))) 3 JSNull))
     = [Listener 1 (Some (JSError ''Error'' ''boom''))] \<and>
   thrown (complete (fst (on (fst (on (Job (basic_config ''mail'' JSNull 1) 0) EvComplete
     (Listener 1 (Some (JSError ''Error'' ''boom''))))) EvComplete (Listener 2 None))) 3 JSNull)
     = Some (JSError ''Error'' ''boom'') \<and>
   state (job_of (complete (fst (on (fst (on (Job (basic_config ''mail'' JSNull 1) 0) EvComplete
     (Listener 1 (Some (JSError ''Error'' ''boom''))))) EvComplete (Listener 2 None))) 3 JSNull))
     = COMPLETED"
  by (simp add: Job_def basic_config_def on_def complete_def fireEvent_def Let_def)

subsection \<open>The error stored by fail\<close>

text \<open>
  C5 (as the code has it). For a call \<^verbatim>\<open>fail(err)\<close>: when \<^verbatim>\<open>err\<close> is neither \<^verbatim>\<open>undefined\<close> nor
  \<^verbatim>\<open>null\<close> and \<^verbatim>\<open>err.message\<close> is truthy, \<^verbatim>\<open>error\<close> becomes \<^verbatim>\<open>err.message\<close> as it is (a string
  for an \<^verbatim>\<open>Error\<close>); in every other case, also for a \<^verbatim>\<open>message\<close> that is present and falsy,
  \<^verbatim>\<open>error\<close> becomes the string \<^verbatim>\<open>String(err)\<close>, when that conversion returns. \<^verbatim>\<open>fail()\<close>
  without an argument sets \<^verbatim>\<open>error\<close> to the string \<^verbatim>\<open>"undefined"\<close>.
  \<^verbatim>\<open>fail(new Error("boom"))\<close> and \<^verbatim>\<open>fail("boom")\<close> both set \<^verbatim>\<open>error\<close> to \<^verbatim>\<open>"boom"\<close>. In each of
  these cases the call ends with an exception only if a \<^verbatim>\<open>fail\<close> listener throws, and
  \<^verbatim>\<open>error\<close> is written then too.
\<close>

theorem fail_error_spec:
  "(ToBoolean (message_of err) \<longrightarrow>
      error (job_of (fail j now err)) = message_of err \<and>
      thrown (fail j now err) = raised (eventListeners j EvFail)) \<and>
   (\<not> ToBoolean (message_of err) \<and> String_js err = Inr s \<longrightarrow>
      error (job_of (fail j now err)) = JSString s \<and>
      thrown (fail j now err) = raised (eventListeners j EvFail)) \<and>
   (raised (eventListeners j EvFail) = None \<longleftrightarrow>
      (\<forall>l \<in> set (eventListeners j EvFail). raises l = None)) \<and>
   message_of (JSError n m) = JSString m \<and>
   message_of JSUndefined = JSUndefined \<and>
   message_of JSNull = JSUndefined \<and>
   error (job_of (fail j now JSUndefined)) = JSString ''undefined'' \<and>
   thrown (fail j now JSUndefined) = raised (eventListeners j EvFail) \<and>
   error (job_of (fail j now (JSError ''Error'' ''boom''))) = JSString ''boom'' \<and>
   thrown (fail j now (JSError ''Error'' ''boom'')) = raised (eventListeners j EvFail) \<and>
   error (job_of (fail j now (JSString ''boom''))) = JSString ''boom'' \<and>
   thrown (fail j now (JSString ''boom'')) = raised (eventListeners j EvFail)"
  by (simp add: fail_def error_of_def fireEvent_eq raised_None_iff Let_def)

theorem fail_error_spec_witness:
  "ToBoolean (message_of
     (JSObject True [(''code'', JSString ''E1''), (''message'', JSString ''no route'')])) \<and>
   error (job_of (fail (Job (basic_config ''mail'' JSNull 1) 0) 3
        (JSObject True [(''code'', JSString ''E1''), (''message'', JSString ''no route'')])))
     = JSString ''no route'' \<and>
   thrown (fail (Job (basic_config ''mail'' JSNull 1) 0) 3
        (JSObject True [(''code'', JSString ''E1''), (''message'', JSString ''no route'')]))
     = None \<and>
   \<not> ToBoolean (message_of (JSObject True [(''code'', JSString ''E1'')])) \<and>
   String_js (JSObject True [(''code'', JSString ''E1'')]) = Inr ''[object Object]'' \<and>
   error (job_of (fail (Job (basic_config ''mail'' JSNull 1) 0) 3
        (JSObject True [(''code'', JSString ''E1'')])))
     = JSString ''[object Object]'' \<and>
   raises (Listener 7 (Some JSNull)) = Some JSNull \<and>
   error (job_of (fail (fst (on (Job (basic_config ''mail'' JSNull 1) 0) EvFail
        (Listener 7 (Some JSNull)))) 3 (JSError ''Error'' ''boom''))) = JSString ''boom'' \<and>
   thrown (fail (fst (on (Job (basic_config ''mail'' JSNull 1) 0) EvFail
        (Listener 7 (Some JSNull)))) 3 (JSError ''Error'' ''boom'')) = Some JSNull"
  using fail_error_spec [where err =
        "JSObject True [(''code'', JSString ''E1''), (''message'', JSString ''no route'')]"
      and j = "Job (basic_config ''mail'' JSNull 1) 0" and now = 3]
    fail_error_spec [where err = "JSObject True [(''code'', JSString ''E1'')]"
      and s = "''[object Object]''" and j = "Job (basic_config ''mail'' JSNull 1) 0" and now = 3]
    fail_error_spec [where err = "JSError ''Error'' ''boom''"
      and j = "fst (on (Job (basic_config ''mail'' JSNull 1) 0) EvFail (Listener 7 (Some JSNull)))"
      and now = 3]
  by (simp add: Job_def basic_config_def on_def fail_def error_of_def fireEvent_def Let_def)

text \<open>The claim as it is stated fails: \<^verbatim>\<open>fail()\<close> on a job whose \<^verbatim>\<open>error\<close> is \<^verbatim>\<open>undefined\<close>
  stores the string \<^verbatim>\<open>"undefined"\<close>; \<^verbatim>\<open>fail(new Error(""))\<close>, whose \<^verbatim>\<open>message\<close> is the empty
  string, stores \<^verbatim>\<open>"Error"\<close>; \<^verbatim>\<open>fail({ message: true })\<close> stores the boolean.\<close>

theorem fail_error_counterexample:
  "error (Job (basic_config ''mail'' JSNull 0) 0) = JSUndefined \<and>
   error (job_of (fail (Job (basic_config ''mail'' JSNull 0) 0) 1 JSUndefined))
     = JSString ''undefined'' \<and>
   thrown (fail (Job (basic_config ''mail'' JSNull 0) 0) 1 JSUndefined) = None \<and>
   error (job_of (fail (Job (basic_config ''mail'' JSNull 0) 0) 1 (JSError ''Error'' [])))
     = JSString ''Error'' \<and>
   thrown (fail (Job (basic_config ''mail'' JSNull 0) 0) 1 (JSError ''Error'' [])) = None \<and>
   error (job_of (fail (Job (basic_config ''mail'' JSNull 0) 0) 1
        (JSObject True [(''message'', JSBoolean True)])))
     = JSBoolean True \<and>
   thrown (fail (Job (basic_config ''mail'' JSNull 0) 0) 1
        (JSObject True [(''message'', JSBoolean True)])) = None"
  by (simp add: Job_def basic_config_def fail_def error_of_def fireEvent_def Let_def)

subsection \<open>defer\<close>

text \<open>
  C6. In state RUNNING, \<^verbatim>\<open>defer()\<close> sets the state to PENDING and \<^verbatim>\<open>attempts\<close> to 0. In state
  PENDING, COMPLETED, FAILED or RETRYING it returns the job as it was, every field
  unchanged, and calls no listener.
\<close>

theorem defer_spec:
  "(state j = RUNNING \<longrightarrow>
      state (fst (defer j)) = PENDING \<and> attempts (fst (defer j)) = 0) \<and>
   (state j = PENDING \<or> state j = COMPLETED \<or> state j = FAILED \<or> state j = RETRYING \<longrightarrow>
      defer j = (j, []))"
  by (auto simp: defer_def)

theorem defer_spec_witness:
  "state (job_of (start (Job (basic_config ''mail'' JSNull 1) 0) 2)) = RUNNING \<and>
   attempts (job_of (start (Job (basic_config ''mail'' JSNull 1) 0) 2)) = 1 \<and>
   state (fst (defer (job_of (start (Job (basic_config ''mail'' JSNull 1) 0) 2)))) = PENDING \<and>
   attempts (fst (defer (job_of (start (Job (basic_config ''mail'' JSNull 1) 0) 2)))) = 0 \<and>
   state (Job (basic_config ''mail'' JSNull 1) 0) = PENDING \<and>
   defer (Job (basic_config ''mail'' JSNull 1) 0) = (Job (basic_config ''mail'' JSNull 1) 0, [])"
  using defer_spec [of "job_of (start (Job (basic_config ''mail'' JSNull 1) 0) 2)"]
    defer_spec [of "Job (basic_config ''mail'' JSNull 1) 0"]
  by (simp add: Job_def basic_config_def start_def fireEvent_def to_double_int Let_def)

subsection \<open>setProgress\<close>

text \<open>
  C7. In any state, also COMPLETED and FAILED, and for any number \<open>p\<close>, \<^verbatim>\<open>setProgress(p)\<close>
  sets \<^verbatim>\<open>progress\<close> to \<^verbatim>\<open>min(p, 100)\<close>: at most 100, and \<open>p\<close> itself when \<open>p\<close> is at most 100,
  also below 0. It writes no other field, leaves the state as it was and calls no
  listener.
\<close>

theorem setProgress_spec:
  "setProgress j p = (j\<lparr>progress := min p 100\<rparr>, []) \<and>
   progress (fst (setProgress j p)) = min p 100 \<and>
   progress (fst (setProgress j p)) \<le> 100 \<and>
   (p \<le> 100 \<longrightarrow> progress (fst (setProgress j p)) = p) \<and>
   state (fst (setProgress j p)) = state j \<and>
   snd (setProgress j p) = []"
  by (simp add: setProgress_def)

theorem setProgress_spec_witness:
  "state (job_of (complete (Job (basic_config ''mail'' JSNull 1) 0) 2 JSNull)) = COMPLETED \<and>
   (-5 :: real) \<le> 100 \<and>
   setProgress (job_of (complete (Job (basic_config ''mail'' JSNull 1) 0) 2 JSNull)) (-5) =
     ((job_of (complete (Job (basic_config ''mail'' JSNull 1) 0) 2 JSNull))\<lparr>progress := -5\<rparr>,
      []) \<and>
   setProgress (job_of (complete (Job (basic_config ''mail'' JSNull 1) 0) 2 JSNull)) 150 =
     (job_of (complete (Job (basic_config ''mail'' JSNull 1) 0) 2 JSNull), []) \<and>
   progress (fst (setProgress (Job (basic_config ''mail'' JSNull 1) 0) 42)) = 42"
  using setProgress_spec
      [of "job_of (complete (Job (basic_config ''mail'' JSNull 1) 0) 2 JSNull)" "-5"]
    setProgress_spec
      [of "job_of (complete (Job (basic_config ''mail'' JSNull 1) 0) 2 JSNull)" 150]
    setProgress_spec [of "Job (basic_config ''mail'' JSNull 1) 0" 42]
  by (simp add: Job_def basic_config_def complete_def fireEvent_def Let_def)

subsection \<open>Which calls raise an error\<close>

text \<open>
  C8 (as the code has it). In every state and for every argument, \<^verbatim>\<open>setProgress(p)\<close>,
  \<^verbatim>\<open>defer()\<close> and \<^verbatim>\<open>on(type, listener)\<close> raise no error. When no registered listener throws,
  \<^verbatim>\<open>start()\<close> and \<^verbatim>\<open>complete(result)\<close> raise no error either, and for the arguments of the
  embedding (no argument, \<^verbatim>\<open>undefined\<close>, \<^verbatim>\<open>null\<close>, a boolean, a string, an \<^verbatim>\<open>Error\<close>, an ordinary
  object with data properties that hold such values) \<^verbatim>\<open>fail(err)\<close> raises exactly when \<^verbatim>\<open>err\<close>
  has no truthy \<^verbatim>\<open>message\<close> and \<^verbatim>\<open>String(err)\<close> raises, which it does exactly for an object
  that has no prototype (such as \<^verbatim>\<open>Object.create(null)\<close>) or has an own \<^verbatim>\<open>toString\<close> property.
  Calls in a wrong state, \<^verbatim>\<open>start()\<close> from COMPLETED and \<^verbatim>\<open>defer()\<close> from PENDING, return the
  job as it was.
\<close>

theorem no_raise_spec:
  "((\<forall>t. \<forall>l \<in> set (eventListeners j t). raises l = None) \<longrightarrow>
      ((\<exists>e. thrown (step j now op) = Some e) \<longleftrightarrow>
       (\<exists>err. op = Fail err \<and> \<not> ToBoolean (message_of err) \<and>
          (\<exists>e. String_js err = Inl e)))) \<and>
   ((\<exists>e. String_js v = Inl e) \<longleftrightarrow>
      (\<exists>proto ps. v = JSObject proto ps \<and> (\<not> proto \<or> ''toString'' \<in> set (map fst ps)))) \<and>
   thrown (step j now (SetProgress p)) = None \<and>
   thrown (step j now Defer) = None \<and>
   thrown (step j now (On t' l')) = None \<and>
   (state j = COMPLETED \<longrightarrow> step j now Start = \<lparr>job_of = j, calls_of = [], thrown = None\<rparr>) \<and>
   (state j = PENDING \<longrightarrow> step j now Defer = \<lparr>job_of = j, calls_of = [], thrown = None\<rparr>)"
proof -
  have quiet: "raised (eventListeners j t) = None"
    if "\<forall>t. \<forall>l \<in> set (eventListeners j t). raises l = None" for t
    using that by (simp add: raised_None_iff)
  have "(\<forall>t. \<forall>l \<in> set (eventListeners j t). raises l = None) \<longrightarrow>
      ((\<exists>e. thrown (step j now op) = Some e) \<longleftrightarrow>
       (\<exists>err. op = Fail err \<and> \<not> ToBoolean (message_of err) \<and>
          (\<exists>e. String_js err = Inl e)))"
  proof
    assume all: "\<forall>t. \<forall>l \<in> set (eventListeners j t). raises l = None"
    show "(\<exists>e. thrown (step j now op) = Some e) \<longleftrightarrow>
       (\<exists>err. op = Fail err \<and> \<not> ToBoolean (message_of err) \<and>
          (\<exists>e. String_js err = Inl e))"
      using quiet [OF all, of EvStart] quiet [OF all, of EvComplete] quiet [OF all, of EvFail]
      by (cases op)
         (auto simp: start_def complete_def fail_def fireEvent_eq error_of_def Let_def
               split: sum.splits)
  qed
  moreover have "(\<exists>e. String_js v = Inl e) \<longleftrightarrow>
      (\<exists>proto ps. v = JSObject proto ps \<and> (\<not> proto \<or> ''toString'' \<in> set (map fst ps)))"
    by (cases v) auto
  moreover have "thrown (step j now (SetProgress p)) = None"
    "thrown (step j now Defer) = None" "thrown (step j now (On t' l')) = None"
    by simp_all
  moreover have "state j = COMPLETED \<longrightarrow>
      step j now Start = \<lparr>job_of = j, calls_of = [], thrown = None\<rparr>"
    by (simp add: start_def)
  moreover have "state j = PENDING \<longrightarrow>
      step j now Defer = \<lparr>job_of = j, calls_of = [], thrown = None\<rparr>"
    by (simp add: defer_def)
  ultimately show ?thesis by blast
qed

theorem no_raise_spec_witness:
  "raises (Listener 3 None) = None \<and>
   eventListeners (fst (on (Job (basic_config ''mail'' JSNull 1) 0) EvFail (Listener 3 None)))
     = (\<lambda>t. [])(EvFail := [Listener 3 None]) \<and>
   state (job_of (complete (Job (basic_config ''mail'' JSNull 1) 0) 2 JSNull)) = COMPLETED \<and>
   step (job_of (complete (Job (basic_config ''mail'' JSNull 1) 0) 2 JSNull)) 3 Start =
     \<lparr>job_of = job_of (complete (Job (basic_config ''mail'' JSNull 1) 0) 2 JSNull),
      calls_of = [], thrown = None\<rparr> \<and>
   state (Job (basic_config ''mail'' JSNull 1) 0) = PENDING \<and>
   step (Job (basic_config ''mail'' JSNull 1) 0) 3 Defer =
     \<lparr>job_of = Job (basic_config ''mail'' JSNull 1) 0, calls_of = [], thrown = None\<rparr> \<and>
   thrown (step (fst (on (Job (basic_config ''mail'' JSNull 1) 0) EvFail (Listener 3 None))) 3
     (Fail (JSError ''RangeError'' ''too deep''))) = None \<and>
   thrown (step (fst (on (Job (basic_config ''mail'' JSNull 1) 0) EvFail (Listener 3 None))) 3
     (Fail (JSObject True [(''toString'', JSNull)])))
     = Some (JSError ''TypeError'' ''Cannot convert object to primitive value'')"
  using no_raise_spec [of "job_of (complete (Job (basic_config ''mail'' JSNull 1) 0) 2 JSNull)"
      3 Start]
    no_raise_spec [of "Job (basic_config ''mail'' JSNull 1) 0" 3 Defer]
    no_raise_spec [of "fst (on (Job (basic_config ''mail'' JSNull 1) 0) EvFail (Listener 3 None))"
      3 "Fail (JSError ''RangeError'' ''too deep'')"]
    no_raise_spec [of "fst (on (Job (basic_config ''mail'' JSNull 1) 0) EvFail (Listener 3 None))"
      3 "Fail (JSObject True [(''toString'', JSNull)])"]
  by (simp add: Job_def basic_config_def on_def start_def complete_def defer_def fail_def
        error_of_def fireEvent_def Let_def)

text \<open>The claim as it is stated fails: \<^verbatim>\<open>fail(Object.create(null))\<close> on a new job, which has no
  listener, throws the \<^verbatim>\<open>TypeError\<close> of \<^verbatim>\<open>String\<close>.\<close>

theorem no_raise_counterexample:
  "eventListeners (Job (basic_config ''mail'' JSNull 0) 0) = (\<lambda>t. []) \<and>
   thrown (step (Job (basic_config ''mail'' JSNull 0) 0) 1 (Fail (JSObject False [])))
     = Some (JSError ''TypeError'' ''Cannot convert object to primitive value'')"
  by (simp add: Job_def basic_config_def fail_def error_of_def)

subsection \<open>fail before the first start\<close>

lemma job_after_no_start:
  "attempts j = 0 \<Longrightarrow> 0 \<le> retries j \<Longrightarrow> state j \<noteq> FAILED \<Longrightarrow> snd c \<noteq> Start \<Longrightarrow>
   attempts (job_after j c) = 0 \<and> retries (job_after j c) = retries j
   \<and> state (job_after j c) \<noteq> FAILED"
  by (cases "snd c")
     (auto simp: job_after_def setProgress_def complete_def fail_def defer_def on_def Let_def
           split: sum.splits)

lemma run_no_start:
  "attempts j = 0 \<Longrightarrow> 0 \<le> retries j \<Longrightarrow> state j \<noteq> FAILED \<Longrightarrow>
   \<forall>c \<in> set ops. snd c \<noteq> Start \<Longrightarrow>
   attempts (run j ops) = 0 \<and> state (run j ops) \<noteq> FAILED"
proof (induction ops arbitrary: j)
  case Nil
  then show ?case by simp
next
  case (Cons c ops)
  then have "attempts (job_after j c) = 0 \<and> retries (job_after j c) = retries j
      \<and> state (job_after j c) \<noteq> FAILED"
    by (intro job_after_no_start) simp_all
  with Cons show ?case by simp
qed

text \<open>
  C9 (as the code has it). For a job whose \<^verbatim>\<open>attempts\<close> is 0 (a job constructed without
  \<^verbatim>\<open>attempts\<close>, or just deferred) and whose \<^verbatim>\<open>retries\<close> is not negative, every call of \<^verbatim>\<open>fail\<close>
  that gets past the conversion of its argument (\<^verbatim>\<open>fail()\<close> always does) gives state
  RETRYING and leaves \<^verbatim>\<open>settledAt\<close> as it was, and it returns unless a \<^verbatim>\<open>fail\<close> listener
  throws; such a job that is not FAILED does not become FAILED by any sequence of calls
  without a \<^verbatim>\<open>start()\<close>.
\<close>

theorem fail_before_start:
  "(attempts j = 0 \<and> 0 \<le> retries j \<and> error_of err = Inr msg \<longrightarrow>
      fail j now err =
        \<lparr>job_of = j\<lparr>error := msg, progress := 0, state := RETRYING\<rparr>,
         calls_of = map (\<lambda>l. (l, j\<lparr>error := msg, progress := 0, state := RETRYING\<rparr>))
           (invoked (eventListeners j EvFail)),
         thrown = raised (eventListeners j EvFail)\<rparr>) \<and>
   (attempts j = 0 \<and> 0 \<le> retries j \<and> error_of err = Inr msg \<and>
    (\<forall>l \<in> set (eventListeners j EvFail). raises l = None) \<longrightarrow>
      fail j now err =
        \<lparr>job_of = j\<lparr>error := msg, progress := 0, state := RETRYING\<rparr>,
         calls_of = map (\<lambda>l. (l, j\<lparr>error := msg, progress := 0, state := RETRYING\<rparr>))
           (eventListeners j EvFail),
         thrown = None\<rparr>) \<and>
   (attempts j = 0 \<and> 0 \<le> retries j \<longrightarrow>
      state (job_of (fail j now JSUndefined)) = RETRYING \<and>
      settledAt (job_of (fail j now JSUndefined)) = settledAt j \<and>
      thrown (fail j now JSUndefined) = raised (eventListeners j EvFail)) \<and>
   (cfg_attempts config = None \<longrightarrow> attempts (Job config created) = 0) \<and>
   (state j = RUNNING \<longrightarrow> attempts (fst (defer j)) = 0) \<and>
   (attempts j = 0 \<and> 0 \<le> retries j \<and> state j \<noteq> FAILED \<and>
    (\<forall>c \<in> set ops. snd c \<noteq> Start) \<longrightarrow>
      state (run j ops) \<noteq> FAILED)"
proof -
  have "attempts j = 0 \<and> 0 \<le> retries j \<and> error_of err = Inr msg \<longrightarrow>
      fail j now err =
        \<lparr>job_of = j\<lparr>error := msg, progress := 0, state := RETRYING\<rparr>,
         calls_of = map (\<lambda>l. (l, j\<lparr>error := msg, progress := 0, state := RETRYING\<rparr>))
           (invoked (eventListeners j EvFail)),
         thrown = raised (eventListeners j EvFail)\<rparr>"
    by (simp add: fail_def fireEvent_eq Let_def)
  moreover have "attempts j = 0 \<and> 0 \<le> retries j \<and> error_of err = Inr msg \<and>
      (\<forall>l \<in> set (eventListeners j EvFail). raises l = None) \<longrightarrow>
      fail j now err =
        \<lparr>job_of = j\<lparr>error := msg, progress := 0, state := RETRYING\<rparr>,
         calls_of = map (\<lambda>l. (l, j\<lparr>error := msg, progress := 0, state := RETRYING\<rparr>))
           (eventListeners j EvFail),
         thrown = None\<rparr>"
    by (simp add: fail_def fireEvent_eq invoked_all raised_None_iff Let_def)
  moreover have "attempts j = 0 \<and> 0 \<le> retries j \<longrightarrow>
      state (job_of (fail j now JSUndefined)) = RETRYING \<and>
      settledAt (job_of (fail j now JSUndefined)) = settledAt j \<and>
      thrown (fail j now JSUndefined) = raised (eventListeners j EvFail)"
    by (simp add: fail_def error_of_def fireEvent_eq Let_def)
  moreover have "cfg_attempts config = None \<longrightarrow> attempts (Job config created) = 0"
    by (simp add: Job_def)
  moreover have "state j = RUNNING \<longrightarrow> attempts (fst (defer j)) = 0"
    by (simp add: defer_def)
  moreover have "attempts j = 0 \<and> 0 \<le> retries j \<and> state j \<noteq> FAILED \<and>
      (\<forall>c \<in> set ops. snd c \<noteq> Start) \<longrightarrow> state (run j ops) \<noteq> FAILED"
    using run_no_start by blast
  ultimately show ?thesis by blast
qed

theorem fail_before_start_witness:
  "attempts (fst (on (Job (basic_config ''mail'' JSNull 0) 0) EvFail (Listener 2 None))) = 0 \<and>
   0 \<le> retries (fst (on (Job (basic_config ''mail'' JSNull 0) 0) EvFail (Listener 2 None))) \<and>
   error_of (JSString ''boom'') = Inr (JSString ''boom'') \<and>
   raises (Listener 2 None) = None \<and>
   cfg_attempts (basic_config ''mail'' JSNull 0) = None \<and>
   fail (fst (on (Job (basic_config ''mail'' JSNull 0) 0) EvFail (Listener 2 None))) 1
       (JSString ''boom'') =
     \<lparr>job_of = (Job (basic_config ''mail'' JSNull 0) 0)
        \<lparr>error := JSString ''boom'', progress := 0, state := RETRYING,
         eventListeners := (\<lambda>t. [])(EvFail := [Listener 2 None])\<rparr>,
      calls_of = [(Listener 2 None, (Job (basic_config ''mail'' JSNull 0) 0)
        \<lparr>error := JSString ''boom'', progress := 0, state := RETRYING,
         eventListeners := (\<lambda>t. [])(EvFail := [Listener 2 None])\<rparr>)],
      thrown = None\<rparr> \<and>
   state (job_of (start (Job (basic_config ''mail'' JSNull 0) 0) 1)) = RUNNING \<and>
   attempts (fst (defer (job_of (start (Job (basic_config ''mail'' JSNull 0) 0) 1)))) = 0 \<and>
   state (fst (on (Job (basic_config ''mail'' JSNull 0) 0) EvFail (Listener 2 None))) \<noteq> FAILED \<and>
   Fail JSUndefined \<noteq> Start \<and> Defer \<noteq> Start \<and> Fail (JSString ''boom'') \<noteq> Start \<and>
   state (run (fst (on (Job (basic_config ''mail'' JSNull 0) 0) EvFail (Listener 2 None)))
     [(1, Fail JSUndefined), (2, Defer), (3, Fail (JSString ''boom''))]) = RETRYING"
  using fail_before_start
      [where j = "fst (on (Job (basic_config ''mail'' JSNull 0) 0) EvFail (Listener 2 None))"
      and err = "JSString ''boom''" and msg = "JSString ''boom''" and now = 1
      and config = "basic_config ''mail'' JSNull 0" and created = 0
      and ops = "[(1, Fail JSUndefined), (2, Defer), (3, Fail (JSString ''boom''))]"]
    fail_before_start [where j = "job_of (start (Job (basic_config ''mail'' JSNull 0) 0) 1)"]
  by (simp add: Job_def basic_config_def job_after_def on_def start_def defer_def fail_def
        error_of_def fireEvent_def to_double_int Let_def)

text \<open>The claim as it is stated fails: a job constructed with \<^verbatim>\<open>retries: -1\<close> has \<^verbatim>\<open>attempts\<close> 0,
  and its first \<^verbatim>\<open>fail()\<close>, before any \<^verbatim>\<open>start()\<close>, gives FAILED with \<^verbatim>\<open>settledAt\<close> set.\<close>

theorem fail_before_start_counterexample:
  "attempts (Job (basic_config ''mail'' JSNull (-1)) 0) = 0 \<and>
   state (Job (basic_config ''mail'' JSNull (-1)) 0) = PENDING \<and>
   state (job_of (fail (Job (basic_config ''mail'' JSNull (-1)) 0) 1 JSUndefined)) = FAILED \<and>
   settledAt (job_of (fail (Job (basic_config ''mail'' JSNull (-1)) 0) 1 JSUndefined)) = Some 1 \<and>
   thrown (fail (Job (basic_config ''mail'' JSNull (-1)) 0) 1 JSUndefined) = None"
  by (simp add: Job_def basic_config_def fail_def error_of_def fireEvent_def Let_def)

subsection \<open>What defer leaves alone\<close>

text \<open>
  C10. On a RUNNING job \<^verbatim>\<open>defer()\<close> writes \<^verbatim>\<open>state\<close> and \<^verbatim>\<open>attempts\<close> only: \<^verbatim>\<open>startedAt\<close> keeps the
  time of the interrupted attempt, \<^verbatim>\<open>progress\<close>, \<^verbatim>\<open>result\<close>, \<^verbatim>\<open>error\<close>, \<^verbatim>\<open>settledAt\<close> and the
  registered listeners are unchanged, and no listener is called.
\<close>

theorem defer_frame:
  "state j = RUNNING \<longrightarrow>
     defer j = (j\<lparr>state := PENDING, attempts := 0\<rparr>, []) \<and>
     startedAt (fst (defer j)) = startedAt j \<and>
     progress (fst (defer j)) = progress j \<and>
     result (fst (defer j)) = result j \<and>
     error (fst (defer j)) = error j \<and>
     settledAt (fst (defer j)) = settledAt j \<and>
     eventListeners (fst (defer j)) = eventListeners j \<and>
     snd (defer j) = []"
  by (simp add: defer_def)

theorem defer_frame_witness:
  "state (fst (setProgress (job_of (start (fst (on (Job (basic_config ''mail'' JSNull 1) 0)
      EvStart (Listener 4 None))) 6)) 30)) = RUNNING \<and>
   defer (fst (setProgress (job_of (start (fst (on (Job (basic_config ''mail'' JSNull 1) 0)
      EvStart (Listener 4 None))) 6)) 30)) =
     ((Job (basic_config ''mail'' JSNull 1) 0)
        \<lparr>state := PENDING, attempts := 0, startedAt := Some 6, progress := 30,
         eventListeners := (\<lambda>t. [])(EvStart := [Listener 4 None])\<rparr>, [])"
  using defer_frame [of "fst (setProgress (job_of (start (fst (on
      (Job (basic_config ''mail'' JSNull 1) 0) EvStart (Listener 4 None))) 6)) 30)"]
  by (simp add: Job_def basic_config_def on_def start_def setProgress_def fireEvent_def
        to_double_int Let_def)

end
